theory Spec2Isabelle
  imports Main "HOL-Library.Word"
begin

section \<open>The disk device of \<^verbatim>\<open>tinygrad/runtime/ops_disk.py\<close>\<close>

text \<open>
  The module defines three classes: \<^verbatim>\<open>DiskBuffer\<close> (a size and an offset into the memory of
  a device), \<^verbatim>\<open>DiskAllocator\<close> (allocate, free, view, copy in, copy out, offset) and
  \<^verbatim>\<open>DiskDevice\<close> (the counted open/close life cycle of one file or shared-memory
  segment). Python objects are records, attribute assignment is record update, and a
  method that mutates \<^verbatim>\<open>self\<close> takes the device and returns it updated. An exception is a
  value: a method returns the exception it raised (if any) together with the device as the
  exception left it, because Python keeps every assignment made before the \<^verbatim>\<open>raise\<close>.
\<close>

subsection \<open>Values\<close>

type_synonym byte = "8 word"

text \<open>The exceptions the module and the library calls it makes can raise.\<close>

datatype error =
  AssertionError | AttributeError | ValueError | OverflowError | OSError | BufferError

text \<open>
  The constants the module reads from its imports, none of which is defined in this file:
  \<^verbatim>\<open>tinygrad.helpers.OSX\<close>, \<^verbatim>\<open>hasattr(os, 'O_DIRECT')\<close> and
  \<^verbatim>\<open>getattr(mmap, "MADV_HUGEPAGE", None)\<close>. They are parameters of the model.
\<close>

record platform =
  OSX :: bool
  has_O_DIRECT :: bool
  MADV_HUGEPAGE :: "int option"

text \<open>
  What the operating system answers during one call of \<^verbatim>\<open>_might_open\<close>, one answer for
  each library call that can fail there: whether the \<^verbatim>\<open>os.open\<close> of the \<^verbatim>\<open>try\<close> block
  succeeds, whether the one of the \<^verbatim>\<open>except\<close> block does, whether \<^verbatim>\<open>os.fstat\<close>,
  \<^verbatim>\<open>os.ftruncate\<close> and \<^verbatim>\<open>mmap.mmap\<close> succeed (for arguments they accept at all), whether
  the constructor of \<^verbatim>\<open>SharedMemory\<close> returns an object (it opens, sizes and maps the
  segment itself), and whether the kernel accepts the \<^verbatim>\<open>madvise\<close> hint.
\<close>

record os_resp =
  open_ok :: bool
  retry_ok :: bool
  fstat_ok :: bool
  ftruncate_ok :: bool
  mmap_ok :: bool
  shm_ok :: bool
  madvise_ok :: bool

text \<open>
  A file descriptor as \<^verbatim>\<open>os.open\<close> returns it: the model keeps whether it is still open
  and whether it was opened with \<^verbatim>\<open>O_DIRECT\<close>.
\<close>

record fdesc =
  fd_open :: bool
  o_direct :: bool

text \<open>
  A \<^verbatim>\<open>multiprocessing.shared_memory.SharedMemory\<close> object: the bytes of its segment,
  whether \<^verbatim>\<open>close()\<close> has released its buffer, whether \<^verbatim>\<open>unlink()\<close> has removed the
  segment, and how many memoryviews of the segment (other than the buffer itself) are
  still alive: views that \<^verbatim>\<open>as_buffer\<close> returned and the caller has kept.
\<close>

record SharedMemory =
  seg :: "byte list"
  released :: bool
  unlinked :: bool
  exports :: nat

text \<open>
  The attribute \<^verbatim>\<open>mem\<close> of a device. \<^verbatim>\<open>Absent\<close>: the attribute was never assigned (reading
  it raises \<^verbatim>\<open>AttributeError\<close>). \<^verbatim>\<open>PyNone\<close>: the value \<^verbatim>\<open>None\<close>, which the assertion of
  \<^verbatim>\<open>DiskBuffer._buf\<close> tests for. \<^verbatim>\<open>Mmap n\<close>: an \<^verbatim>\<open>mmap.mmap\<close> object, a shared writable
  mapping of the first \<open>n\<close> bytes of the device's file. \<^verbatim>\<open>ShmBuf\<close>: the object
  \<^verbatim>\<open>self.shm.buf\<close>, the memoryview of the current \<^verbatim>\<open>shm\<close> attribute (the same object, so
  releasing one releases the other).
\<close>

datatype mem_attr = Absent | PyNone | Mmap nat | ShmBuf

text \<open>
  \<^verbatim>\<open>DiskDevice\<close>. \<^verbatim>\<open>size\<close> and \<^verbatim>\<open>count\<close> are set by \<^verbatim>\<open>__init__\<close>; \<^verbatim>\<open>shm\<close>, \<^verbatim>\<open>fd\<close> and
  \<^verbatim>\<open>mem\<close> are attributes that exist only once \<^verbatim>\<open>_might_open\<close> has assigned them
  (\<open>None\<close> and \<open>Absent\<close> stand for \<^verbatim>\<open>hasattr(self, ...) == False\<close>). The field
  \<open>disk_file\<close> is not an attribute: it is the content of the file the device name
  designates (empty when the file does not exist), the part of the file system the
  device reads and writes.
\<close>

record DiskDevice =
  dname :: string
  size_dev :: "int option"
  count :: int
  shm :: "SharedMemory option"
  fd :: "fdesc option"
  mem :: mem_attr
  disk_file :: "byte list"

text \<open>\<^verbatim>\<open>DiskBuffer\<close>: the device it refers to (by the device's name), a size and an offset.\<close>

record DiskBuffer =
  device :: string
  size_buf :: int
  offset_buf :: int

text \<open>
  A memoryview into the memory of a device, as \<^verbatim>\<open>DiskBuffer._buf\<close> returns it: the window
  of \<open>v_len\<close> bytes that starts at index \<open>v_start\<close> of the mapped memory. It holds no
  copy of the bytes.
\<close>

record view =
  v_start :: nat
  v_len :: nat

subsection \<open>The library calls\<close>

text \<open>
  \<^verbatim>\<open>SharedMemory(name=..., create=True, size=sz)\<close> raises \<^verbatim>\<open>ValueError\<close> unless \<open>sz\<close> is
  positive. Otherwise \<open>shm_ok\<close> says whether the constructor returns an object (an
  \<^verbatim>\<open>OSError\<close> stands for whatever it raises when it cannot open, size or map the
  segment); a new segment is \<open>sz\<close> zero bytes with no view on it.
\<close>

definition SharedMemory_create :: "os_resp \<Rightarrow> int \<Rightarrow> error + SharedMemory" where
  "SharedMemory_create r sz =
     (if sz \<le> 0 then Inl ValueError
      else if shm_ok r then
        Inr \<lparr>seg = replicate (nat sz) 0, released = False, unlinked = False, exports = 0\<rparr>
      else Inl OSError)"

text \<open>
  \<^verbatim>\<open>SharedMemory.close()\<close> releases the buffer, then closes the mapping, which raises
  \<^verbatim>\<open>BufferError\<close> while another view of the segment is alive. Closing twice is allowed.
\<close>

definition SharedMemory_close :: "SharedMemory \<Rightarrow> error option \<times> SharedMemory" where
  "SharedMemory_close s =
     (if 0 < exports s then (Some BufferError, s\<lparr>released := True\<rparr>)
      else (None, s\<lparr>released := True\<rparr>))"

text \<open>\<^verbatim>\<open>SharedMemory.unlink()\<close> removes the segment, and raises when it is already gone.\<close>

definition SharedMemory_unlink :: "SharedMemory \<Rightarrow> error + SharedMemory" where
  "SharedMemory_unlink s = (if unlinked s then Inl OSError else Inr (s\<lparr>unlinked := True\<rparr>))"

text \<open>\<^verbatim>\<open>os.open(filename, flags)\<close>, with the answer of the operating system given.\<close>

definition os_open :: "bool \<Rightarrow> bool \<Rightarrow> error + fdesc" where
  "os_open ok direct = (if ok then Inr \<lparr>fd_open = True, o_direct = direct\<rparr> else Inl OSError)"

text \<open>\<^verbatim>\<open>os.close(fd)\<close> raises \<^verbatim>\<open>OSError\<close> (bad file descriptor) on a closed descriptor.\<close>

definition os_close :: "fdesc \<Rightarrow> error + fdesc" where
  "os_close f = (if fd_open f then Inr (f\<lparr>fd_open := False\<rparr>) else Inl OSError)"

text \<open>\<^verbatim>\<open>os.fstat(fd).st_size\<close> for a file with content \<open>f\<close>.\<close>

definition os_fstat :: "os_resp \<Rightarrow> byte list \<Rightarrow> error + nat" where
  "os_fstat r f = (if fstat_ok r then Inr (length f) else Inl OSError)"

text \<open>
  \<^verbatim>\<open>os.ftruncate(fd, sz)\<close> on a file with content \<open>f\<close>: the new content. A length that
  does not fit the 64-bit signed file offset raises \<^verbatim>\<open>OverflowError\<close>, a negative one
  \<^verbatim>\<open>OSError\<close>; otherwise the operating system cuts the file or extends it with zero
  bytes, or refuses with \<^verbatim>\<open>OSError\<close>.
\<close>

definition os_ftruncate :: "os_resp \<Rightarrow> byte list \<Rightarrow> int \<Rightarrow> error + byte list" where
  "os_ftruncate r f sz =
     (if 2 ^ 63 \<le> sz then Inl OverflowError
      else if sz < 0 then Inl OSError
      else if ftruncate_ok r then Inr (take (nat sz) f @ replicate (nat sz - length f) 0)
      else Inl OSError)"

text \<open>
  \<^verbatim>\<open>mmap.mmap(fd, sz, access=ACCESS_WRITE)\<close> over a file with content \<open>f\<close>: the length of
  the mapping. A length that is negative or does not fit a 64-bit signed size raises
  \<^verbatim>\<open>OverflowError\<close>; length 0 maps the whole file and raises \<^verbatim>\<open>ValueError\<close> on an empty
  file; a length beyond the end of the file raises \<^verbatim>\<open>ValueError\<close>; otherwise the
  operating system maps the file or refuses with \<^verbatim>\<open>OSError\<close>.
\<close>

definition mmap_mmap :: "os_resp \<Rightarrow> byte list \<Rightarrow> int \<Rightarrow> error + nat" where
  "mmap_mmap r f sz =
     (if sz < 0 then Inl OverflowError
      else if 2 ^ 63 \<le> sz then Inl OverflowError
      else if sz = 0 then
        (if f = [] then Inl ValueError
         else if mmap_ok r then Inr (length f) else Inl OSError)
      else if int (length f) < sz then Inl ValueError
      else if mmap_ok r then Inr (nat sz)
      else Inl OSError)"

text \<open>
  \<^verbatim>\<open>self.mem.madvise(hp)\<close>: an \<^verbatim>\<open>mmap\<close> object passes the hint to the kernel and raises
  \<^verbatim>\<open>OSError\<close> when the kernel refuses it; a memoryview (the buffer of a shared-memory
  object) has no method \<^verbatim>\<open>madvise\<close>, so the call raises \<^verbatim>\<open>AttributeError\<close>.
\<close>

definition madvise :: "os_resp \<Rightarrow> mem_attr \<Rightarrow> error option" where
  "madvise r m =
     (case m of
        Mmap n \<Rightarrow> (if madvise_ok r then None else Some OSError)
      | _ \<Rightarrow> Some AttributeError)"

text \<open>
  \<^verbatim>\<open>memoryview(self.device.mem)\<close>, after the assertion \<^verbatim>\<open>self.device.mem is not None\<close>:
  the bytes the mapping shows. The \<^verbatim>\<open>mmap\<close> object of a file is never closed by this
  module (closing the descriptor leaves a mapping in place), so it always shows the
  first \<open>n\<close> bytes of the file; the buffer of a shared-memory object raises
  \<^verbatim>\<open>ValueError\<close> once \<^verbatim>\<open>close()\<close> has released it.
\<close>

definition memoryview :: "DiskDevice \<Rightarrow> error + byte list" where
  "memoryview d =
     (case mem d of
        Absent \<Rightarrow> Inl AttributeError
      | PyNone \<Rightarrow> Inl AssertionError
      | Mmap n \<Rightarrow> Inr (take n (disk_file d))
      | ShmBuf \<Rightarrow>
          (case shm d of
             None \<Rightarrow> Inl AttributeError
           | Some s \<Rightarrow> if released s then Inl ValueError else Inr (seg s)))"

text \<open>Writing \<open>bs\<close> through the mapping at index \<open>i\<close> (the bytes land in the file or segment).\<close>

definition splice :: "byte list \<Rightarrow> nat \<Rightarrow> byte list \<Rightarrow> byte list" where
  "splice xs i bs = take i xs @ bs @ drop (i + length bs) xs"

definition mem_store :: "DiskDevice \<Rightarrow> nat \<Rightarrow> byte list \<Rightarrow> DiskDevice" where
  "mem_store d i bs =
     (case mem d of
        Mmap n \<Rightarrow> d\<lparr>disk_file := splice (disk_file d) i bs\<rparr>
      | ShmBuf \<Rightarrow>
          (case shm d of
             None \<Rightarrow> d
           | Some s \<Rightarrow> d\<lparr>shm := Some (s\<lparr>seg := splice (seg s) i bs\<rparr>)\<rparr>)
      | _ \<Rightarrow> d)"

text \<open>
  Python's \<^verbatim>\<open>m[a:b]\<close> on a sequence of length \<open>n\<close>: a negative bound counts from the end,
  both bounds are clamped to \<open>0..n\<close>, and the result is empty when the stop is not after
  the start. Nothing is raised for a bound out of range.
\<close>

definition clamp_index :: "nat \<Rightarrow> int \<Rightarrow> nat" where
  "clamp_index n i = (if i < 0 then nat (max (i + int n) 0) else min (nat i) n)"

definition py_slice :: "nat \<Rightarrow> int \<Rightarrow> int \<Rightarrow> view" where
  "py_slice n a b = \<lparr>v_start = clamp_index n a, v_len = clamp_index n b - clamp_index n a\<rparr>"

subsection \<open>\<^verbatim>\<open>DiskBuffer\<close>\<close>

text \<open>
  \<^verbatim>\<open>_buf\<close>: the assertion, then
  \<^verbatim>\<open>memoryview(self.device.mem)[self.offset:self.offset + self.size]\<close>.
\<close>

definition buf :: "DiskDevice \<Rightarrow> DiskBuffer \<Rightarrow> error + view" where
  "buf d b =
     (case memoryview d of
        Inl e \<Rightarrow> Inl e
      | Inr m \<Rightarrow> Inr (py_slice (length m) (offset_buf b) (offset_buf b + size_buf b)))"

text \<open>The bytes a view shows.\<close>

definition view_bytes :: "DiskDevice \<Rightarrow> view \<Rightarrow> byte list" where
  "view_bytes d v =
     (case memoryview d of
        Inl e \<Rightarrow> []
      | Inr m \<Rightarrow> take (v_len v) (drop (v_start v) m))"

subsection \<open>\<^verbatim>\<open>DiskDevice\<close>\<close>

text \<open>
  \<^verbatim>\<open>__init__\<close> sets \<^verbatim>\<open>size = None\<close> and \<^verbatim>\<open>count = 0\<close> and passes the device string
  (\<^verbatim>\<open>disk:<path>\<close> or \<^verbatim>\<open>disk:shm:<name>\<close>) to the constructor of \<^verbatim>\<open>Compiled\<close>, a class
  of \<^verbatim>\<open>tinygrad.device\<close> outside this module; \<^verbatim>\<open>_might_open\<close> reads the string back as
  \<^verbatim>\<open>self.dname\<close>, so it is the field \<open>dname\<close> here. The second argument is the content
  of the file on disk when the device is made.
\<close>

definition DiskDevice_init :: "string \<Rightarrow> byte list \<Rightarrow> DiskDevice" where
  "DiskDevice_init dev f =
     \<lparr>dname = dev, size_dev = None, count = 0, shm = None, fd = None, mem = Absent,
      disk_file = f\<rparr>"

text \<open>
  The file branch of \<^verbatim>\<open>_might_open\<close>: open with \<^verbatim>\<open>O_DIRECT\<close> where the platform has it,
  open again without on \<^verbatim>\<open>OSError\<close>, and assign \<^verbatim>\<open>fd\<close>; extend the file when
  \<^verbatim>\<open>os.fstat\<close> says it is shorter than the size; map it and assign \<^verbatim>\<open>mem\<close>. An exception
  of \<^verbatim>\<open>os.fstat\<close>, \<^verbatim>\<open>os.ftruncate\<close> or \<^verbatim>\<open>mmap.mmap\<close> leaves \<^verbatim>\<open>fd\<close> assigned and \<^verbatim>\<open>mem\<close> as
  it was.
\<close>

definition open_file :: "platform \<Rightarrow> os_resp \<Rightarrow> DiskDevice \<Rightarrow> int \<Rightarrow> error option \<times> DiskDevice" where
  "open_file p r d sz =
     (case (case os_open (open_ok r) (\<not> OSX p \<and> has_O_DIRECT p) of
              Inl e \<Rightarrow> os_open (retry_ok r) False
            | Inr f \<Rightarrow> Inr f) of
        Inl e \<Rightarrow> (Some e, d)
      | Inr f \<Rightarrow>
          (let d1 = d\<lparr>fd := Some f\<rparr> in
           case os_fstat r (disk_file d1) of
             Inl e \<Rightarrow> (Some e, d1)
           | Inr st_size \<Rightarrow>
               (case (if int st_size < sz then os_ftruncate r (disk_file d1) sz
                      else Inr (disk_file d1)) of
                  Inl e \<Rightarrow> (Some e, d1)
                | Inr f' \<Rightarrow>
                    (let d2 = d1\<lparr>disk_file := f'\<rparr> in
                     case mmap_mmap r f' sz of
                       Inl e \<Rightarrow> (Some e, d2)
                     | Inr n \<Rightarrow> (None, d2\<lparr>mem := Mmap n\<rparr>)))))"

text \<open>The shared-memory branch: create the segment and take its buffer as \<^verbatim>\<open>mem\<close>.\<close>

definition open_shm :: "os_resp \<Rightarrow> DiskDevice \<Rightarrow> int \<Rightarrow> error option \<times> DiskDevice" where
  "open_shm r d sz =
     (case SharedMemory_create r sz of
        Inl e \<Rightarrow> (Some e, d)
      | Inr s \<Rightarrow> (None, d\<lparr>shm := Some s, mem := ShmBuf\<rparr>))"

text \<open>
  \<^verbatim>\<open>_might_open(size)\<close>. The count goes up first, whatever follows. The assertion fails
  when a size is set and the request is larger. With a size set the method returns; with
  none it sets the size, opens the file or the segment named by \<^verbatim>\<open>dname\<close> after
  \<^verbatim>\<open>disk:\<close>, and, where the platform has \<^verbatim>\<open>MADV_HUGEPAGE\<close>, calls \<^verbatim>\<open>madvise\<close> on
  \<^verbatim>\<open>mem\<close>.
\<close>

definition might_open :: "platform \<Rightarrow> os_resp \<Rightarrow> int \<Rightarrow> DiskDevice \<Rightarrow> error option \<times> DiskDevice" where
  "might_open p r sz self =
     (let d = self\<lparr>count := count self + 1\<rparr> in
      case size_dev d of
        Some cap \<Rightarrow> if sz \<le> cap then (None, d) else (Some AssertionError, d)
      | None \<Rightarrow>
          (let filename = drop (length ''disk:'') (dname d);
               d1 = d\<lparr>size_dev := Some sz\<rparr> in
           case (if take 4 filename = ''shm:'' then open_shm r d1 sz else open_file p r d1 sz) of
             (Some e, d2) \<Rightarrow> (Some e, d2)
           | (None, d2) \<Rightarrow>
               (case MADV_HUGEPAGE p of
                  None \<Rightarrow> (None, d2)
                | Some hp \<Rightarrow> (madvise r (mem d2), d2))))"

text \<open>
  \<^verbatim>\<open>_might_close()\<close>. The count goes down first. When it is then exactly 0: a device with
  an attribute \<^verbatim>\<open>shm\<close> closes and unlinks it, otherwise one with an attribute \<^verbatim>\<open>fd\<close>
  closes it; then the size is reset. An exception of \<^verbatim>\<open>close()\<close>, \<^verbatim>\<open>unlink()\<close> or
  \<^verbatim>\<open>os.close\<close> ends the method there and leaves the size as it was. \<^verbatim>\<open>mem\<close> is not
  assigned.
\<close>

definition might_close :: "DiskDevice \<Rightarrow> error option \<times> DiskDevice" where
  "might_close self =
     (let d = self\<lparr>count := count self - 1\<rparr> in
      if count d = 0 then
        (case shm d of
           Some s \<Rightarrow>
             (case SharedMemory_close s of
                (Some e, s1) \<Rightarrow> (Some e, d\<lparr>shm := Some s1\<rparr>)
              | (None, s1) \<Rightarrow>
                  (case SharedMemory_unlink s1 of
                     Inl e \<Rightarrow> (Some e, d\<lparr>shm := Some s1\<rparr>)
                   | Inr s2 \<Rightarrow> (None, d\<lparr>shm := Some s2, size_dev := None\<rparr>)))
         | None \<Rightarrow>
             (case fd d of
                Some f \<Rightarrow>
                  (case os_close f of
                     Inl e \<Rightarrow> (Some e, d)
                   | Inr f' \<Rightarrow> (None, d\<lparr>fd := Some f', size_dev := None\<rparr>))
              | None \<Rightarrow> (None, d\<lparr>size_dev := None\<rparr>)))
      else (None, d))"

subsection \<open>\<^verbatim>\<open>DiskAllocator\<close>\<close>

text \<open>
  The allocator holds its device; every buffer it hands out refers to that device, so
  the methods below take the one device state. The \<^verbatim>\<open>options\<close> argument of \<^verbatim>\<open>_alloc\<close> and
  \<^verbatim>\<open>_free\<close> is never read and is left out.
\<close>

text \<open>\<^verbatim>\<open>_alloc\<close>: open, then a buffer of the requested size at offset 0.\<close>

definition alloc :: "platform \<Rightarrow> os_resp \<Rightarrow> int \<Rightarrow> DiskDevice \<Rightarrow> (error + DiskBuffer) \<times> DiskDevice" where
  "alloc p r sz d =
     (case might_open p r sz d of
        (Some e, d') \<Rightarrow> (Inl e, d')
      | (None, d') \<Rightarrow> (Inr \<lparr>device = dname d', size_buf = sz, offset_buf = 0\<rparr>, d'))"

text \<open>\<^verbatim>\<open>_free\<close>: the buffer is not looked at.\<close>

definition free :: "DiskBuffer \<Rightarrow> DiskDevice \<Rightarrow> error option \<times> DiskDevice" where
  "free b d = might_close d"

text \<open>\<^verbatim>\<open>as_buffer\<close>: the view of the buffer.\<close>

definition as_buffer :: "DiskDevice \<Rightarrow> DiskBuffer \<Rightarrow> error + view" where
  "as_buffer d src = buf d src"

text \<open>
  What a caller that keeps a view returned by \<^verbatim>\<open>as_buffer\<close> does to the device: the view
  is one more live memoryview of the segment. (A view of a file mapping changes nothing:
  this module never closes that mapping.)
\<close>

definition keep_view :: "DiskDevice \<Rightarrow> DiskDevice" where
  "keep_view d =
     (case mem d of
        ShmBuf \<Rightarrow>
          (case shm d of
             None \<Rightarrow> d
           | Some s \<Rightarrow> if released s then d else d\<lparr>shm := Some (s\<lparr>exports := exports s + 1\<rparr>)\<rparr>)
      | _ \<Rightarrow> d)"

text \<open>
  \<^verbatim>\<open>copyin\<close>: \<^verbatim>\<open>dest._buf()[:] = src\<close>. Assigning to a memoryview slice raises
  \<^verbatim>\<open>ValueError\<close> unless both sides have the same length.
\<close>

definition copyin :: "DiskDevice \<Rightarrow> DiskBuffer \<Rightarrow> byte list \<Rightarrow> error option \<times> DiskDevice" where
  "copyin d dest src =
     (case buf d dest of
        Inl e \<Rightarrow> (Some e, d)
      | Inr v \<Rightarrow>
          if length src = v_len v then (None, mem_store d (v_start v) src)
          else (Some ValueError, d))"

text \<open>
  The most bytes one \<^verbatim>\<open>read\<close> call transfers on \<^verbatim>\<open>OSX\<close>, the only platform on which
  \<^verbatim>\<open>copyout\<close> reads from the descriptor: the interpreter clamps the request to the
  largest C \<^verbatim>\<open>int\<close>.
\<close>

definition READ_MAX :: nat where
  "READ_MAX = 2147483647"

text \<open>
  The branch of \<^verbatim>\<open>copyout\<close> for \<^verbatim>\<open>OSX\<close>: a \<^verbatim>\<open>FileIO\<close> over the device's descriptor
  (\<^verbatim>\<open>OSError\<close> when it is closed), \<^verbatim>\<open>seek(src.offset)\<close> (\<^verbatim>\<open>OSError\<close> on a negative
  position), and one call of \<^verbatim>\<open>readinto(dest)\<close>, whose count of bytes read is not looked
  at: as many bytes as the file has from there, at most \<^verbatim>\<open>len(dest)\<close> and at most
  \<open>READ_MAX\<close>, overwrite the front of \<^verbatim>\<open>dest\<close>; the rest of \<^verbatim>\<open>dest\<close> stays.
\<close>

definition read_fd :: "DiskDevice \<Rightarrow> fdesc \<Rightarrow> byte list \<Rightarrow> int \<Rightarrow> error + byte list" where
  "read_fd d f dest pos =
     (if \<not> fd_open f then Inl OSError
      else if pos < 0 then Inl OSError
      else (let got = take (min (length dest) READ_MAX) (drop (nat pos) (disk_file d))
            in Inr (got @ drop (length got) dest)))"

text \<open>
  \<^verbatim>\<open>copyout\<close>: the new content of \<^verbatim>\<open>dest\<close>. On \<^verbatim>\<open>OSX\<close>, for a device with an attribute
  \<^verbatim>\<open>fd\<close>, read from the descriptor; otherwise \<^verbatim>\<open>dest[:] = src._buf()\<close>, which raises
  \<^verbatim>\<open>ValueError\<close> unless the lengths agree.
\<close>

definition copyout :: "platform \<Rightarrow> DiskDevice \<Rightarrow> byte list \<Rightarrow> DiskBuffer \<Rightarrow> error + byte list" where
  "copyout p d dest src =
     (case (if OSX p then fd d else None) of
        Some f \<Rightarrow> read_fd d f dest (offset_buf src)
      | None \<Rightarrow>
          (case buf d src of
             Inl e \<Rightarrow> Inl e
           | Inr v \<Rightarrow>
               if length dest = v_len v then Inr (view_bytes d v) else Inl ValueError))"

text \<open>\<^verbatim>\<open>offset\<close>: a buffer on the device of \<^verbatim>\<open>buf\<close> with the size and offset given.\<close>

definition offset :: "DiskBuffer \<Rightarrow> int \<Rightarrow> int \<Rightarrow> DiskBuffer" where
  "offset b sz off = \<lparr>device = device b, size_buf = sz, offset_buf = off\<rparr>"

subsection \<open>Sequences of calls\<close>

text \<open>
  A caller's allocate and free calls, in order. An allocate carries the answers of the
  operating system for that call. The run goes on after a call that raised, as a caller
  that catches the exception would.
\<close>

datatype call = Alloc int os_resp | Free DiskBuffer

fun run :: "platform \<Rightarrow> call list \<Rightarrow> DiskDevice \<Rightarrow> DiskDevice" where
  "run p [] d = d"
| "run p (Alloc sz r # cs) d = run p cs (snd (alloc p r sz d))"
| "run p (Free b # cs) d = run p cs (snd (free b d))"

subsection \<open>Shapes of call sequences and of device states\<close>

text \<open>Allocates minus frees.\<close>

fun balance :: "call list \<Rightarrow> int" where
  "balance [] = 0"
| "balance (Alloc sz r # cs) = balance cs + 1"
| "balance (Free b # cs) = balance cs - 1"

text \<open>
  \<open>within k cs\<close>: started with \<open>k\<close> buffers outstanding, no free of \<open>cs\<close> comes when
  none is outstanding (every free matches an earlier allocate).
\<close>

fun within :: "int \<Rightarrow> call list \<Rightarrow> bool" where
  "within k [] = True"
| "within k (Alloc sz r # cs) = within (k + 1) cs"
| "within k (Free b # cs) = (if 0 < k then within (k - 1) cs else False)"


text \<open>The device name designates a shared-memory segment (\<^verbatim>\<open>disk:shm:<name>\<close>).\<close>

definition is_shm :: "string \<Rightarrow> bool" where
  "is_shm dev = (take 4 (drop (length ''disk:'') dev) = ''shm:'')"

text \<open>
  An allocate whose size is positive and for which the operating system hands out the
  descriptor (at the first or the second \<^verbatim>\<open>os.open\<close>) or the segment.
\<close>

fun good_call :: "string \<Rightarrow> call \<Rightarrow> bool" where
  "good_call dev (Alloc sz r) =
     (0 < sz \<and> (if is_shm dev then shm_ok r else (open_ok r \<or> retry_ok r)))"
| "good_call dev (Free b) = True"

text \<open>
  An allocate that, beyond that, asks for a size that fits 64 bits signed and, on a file
  device, finds \<^verbatim>\<open>os.fstat\<close>, \<^verbatim>\<open>os.ftruncate\<close> and \<^verbatim>\<open>mmap.mmap\<close> succeeding: its first
  open gets as far as the mapping.
\<close>

fun maps_call :: "string \<Rightarrow> call \<Rightarrow> bool" where
  "maps_call dev (Alloc sz r) =
     (good_call dev (Alloc sz r) \<and> sz < 2 ^ 63 \<and>
      (if is_shm dev then True else (fstat_ok r \<and> ftruncate_ok r \<and> mmap_ok r)))"
| "maps_call dev (Free b) = True"

text \<open>
  The state a first open that got as far as the mapping establishes, and that lasts until
  the teardown: a file mapping with its descriptor open, or the buffer of a
  shared-memory object that is not closed.
\<close>

definition region_open :: "DiskDevice \<Rightarrow> bool" where
  "region_open d =
     (case mem d of
        Mmap n \<Rightarrow> (case fd d of None \<Rightarrow> False | Some f \<Rightarrow> fd_open f)
      | ShmBuf \<Rightarrow> (case shm d of None \<Rightarrow> False | Some s \<Rightarrow> \<not> released s \<and> fd d = None)
      | _ \<Rightarrow> False)"

text \<open>The teardown's result: the segment closed and unlinked, or the descriptor closed.\<close>

definition handles_released :: "DiskDevice \<Rightarrow> bool" where
  "handles_released d =
     (case shm d of
        Some s \<Rightarrow> released s \<and> unlinked s
      | None \<Rightarrow> (case fd d of None \<Rightarrow> True | Some f \<Rightarrow> \<not> fd_open f))"

text \<open>The length of the mapped memory (0 when there is none to look at).\<close>

definition mem_len :: "DiskDevice \<Rightarrow> nat" where
  "mem_len d = (case memoryview d of Inl e \<Rightarrow> 0 | Inr m \<Rightarrow> length m)"

text \<open>A memoryview of the device's memory can be taken (\<^verbatim>\<open>_buf\<close> would not raise).\<close>

definition mapping_exists :: "DiskDevice \<Rightarrow> bool" where
  "mapping_exists d = (case memoryview d of Inl e \<Rightarrow> False | Inr m \<Rightarrow> True)"

text \<open>The handle a first open obtained is still usable by the teardown.\<close>

definition handle_live :: "DiskDevice \<Rightarrow> bool" where
  "handle_live d =
     (if is_shm (dname d) then
        (case shm d of None \<Rightarrow> False | Some s \<Rightarrow> \<not> unlinked s \<and> exports s = 0)
      else (case fd d of None \<Rightarrow> False | Some f \<Rightarrow> fd_open f))"

text \<open>
  What holds of a device as long as every free matches an earlier allocate and every
  allocate is a \<open>good_call\<close>: the count is not negative; the size is set exactly when
  the count is positive; a shared-memory device has no descriptor and a file device no
  segment; with a positive count the handle is live, with count 0 the handles are
  released.
\<close>

definition lifecycle_inv :: "DiskDevice \<Rightarrow> bool" where
  "lifecycle_inv d =
     (0 \<le> count d \<and> (size_dev d = None) = (count d = 0) \<and>
      (if is_shm (dname d) then fd d = None else shm d = None) \<and>
      (if 0 < count d then handle_live d else handles_released d))"

text \<open>
  What holds in addition when every allocate is a \<open>maps_call\<close>: with a positive count
  the region is open, and the mapping is as long as the size says.
\<close>

definition mapped_inv :: "DiskDevice \<Rightarrow> bool" where
  "mapped_inv d =
     (lifecycle_inv d \<and> (if 0 < count d then region_open d else True) \<and>
      (case size_dev d of None \<Rightarrow> True | Some cap \<Rightarrow> int (mem_len d) = cap))"

subsection \<open>Platforms and answers used in the examples\<close>

definition linux :: platform where
  "linux = \<lparr>OSX = False, has_O_DIRECT = True, MADV_HUGEPAGE = Some 14\<rparr>"

definition macos :: platform where
  "macos = \<lparr>OSX = True, has_O_DIRECT = False, MADV_HUGEPAGE = None\<rparr>"

definition os_fine :: os_resp where
  "os_fine =
     \<lparr>open_ok = True, retry_ok = True, fstat_ok = True, ftruncate_ok = True, mmap_ok = True,
      shm_ok = True, madvise_ok = True\<rparr>"

definition new_file_device :: DiskDevice where
  "new_file_device = DiskDevice_init ''disk:/tmp/t'' []"

definition new_shm_device :: DiskDevice where
  "new_shm_device = DiskDevice_init ''disk:shm:t'' []"

definition buffer4 :: DiskBuffer where
  "buffer4 = \<lparr>device = ''disk:/tmp/t'', size_buf = 4, offset_buf = 0\<rparr>"

section \<open>Properties\<close>

subsection \<open>Evaluation and the effect of single calls\<close>

lemma replicate_4: "replicate 4 x = [x, x, x, x]"
  by (simp add: numeral_eq_Suc)

lemmas model_defs = replicate_4
  alloc_def free_def might_open_def might_close_def open_file_def open_shm_def
  os_open_def os_close_def os_fstat_def os_ftruncate_def mmap_mmap_def madvise_def
  SharedMemory_create_def SharedMemory_close_def SharedMemory_unlink_def
  DiskDevice_init_def memoryview_def buf_def as_buffer_def copyin_def copyout_def
  read_fd_def READ_MAX_def view_bytes_def mem_store_def splice_def py_slice_def clamp_index_def
  offset_def is_shm_def region_open_def handles_released_def mem_len_def mapping_exists_def
  linux_def macos_def os_fine_def new_file_device_def new_shm_device_def buffer4_def Let_def

lemma open_file_count: "count (snd (open_file p r d sz)) = count d"
  by (simp add: open_file_def Let_def split: sum.splits)

lemma open_file_dname: "dname (snd (open_file p r d sz)) = dname d"
  by (simp add: open_file_def Let_def split: sum.splits)

lemma open_file_size: "size_dev (snd (open_file p r d sz)) = size_dev d"
  by (simp add: open_file_def Let_def split: sum.splits)

lemma open_file_shm: "shm (snd (open_file p r d sz)) = shm d"
  by (simp add: open_file_def Let_def split: sum.splits)

lemma open_file_mem: "mem d \<noteq> PyNone \<Longrightarrow> mem (snd (open_file p r d sz)) \<noteq> PyNone"
  by (simp add: open_file_def Let_def split: sum.splits)

lemma open_file_fd:
  assumes "open_ok r \<or> retry_ok r"
  shows "fd (snd (open_file p r d sz)) =
           Some \<lparr>fd_open = True, o_direct = (open_ok r \<and> \<not> OSX p \<and> has_O_DIRECT p)\<rparr>"
  using assms by (auto simp add: open_file_def os_open_def Let_def split: sum.splits)

lemma open_shm_count: "count (snd (open_shm r d sz)) = count d"
  by (simp add: open_shm_def split: sum.splits)

lemma open_shm_dname: "dname (snd (open_shm r d sz)) = dname d"
  by (simp add: open_shm_def split: sum.splits)

lemma open_shm_size: "size_dev (snd (open_shm r d sz)) = size_dev d"
  by (simp add: open_shm_def split: sum.splits)

lemma open_shm_mem: "mem d \<noteq> PyNone \<Longrightarrow> mem (snd (open_shm r d sz)) \<noteq> PyNone"
  by (simp add: open_shm_def split: sum.splits)

text \<open>
  The device \<^verbatim>\<open>_might_open\<close> leaves: with a size set only the count has moved; with none,
  the count has moved, the size is set, and the file or the segment was opened as far
  as it got.
\<close>

lemma might_open_set: "size_dev d = Some cap \<Longrightarrow> snd (might_open p r sz d) = d\<lparr>count := count d + 1\<rparr>"
  by (simp add: might_open_def Let_def)

lemma might_open_unset:
  assumes "size_dev d = None"
  shows "snd (might_open p r sz d) =
           (if is_shm (dname d) then snd (open_shm r (d\<lparr>count := count d + 1, size_dev := Some sz\<rparr>) sz)
            else snd (open_file p r (d\<lparr>count := count d + 1, size_dev := Some sz\<rparr>) sz))"
  using assms
  by (simp add: might_open_def is_shm_def Let_def split: prod.splits option.splits)

lemma might_open_count: "count (snd (might_open p r sz d)) = count d + 1"
  by (cases "size_dev d")
    (simp_all add: might_open_unset might_open_set open_file_count open_shm_count)

lemma might_open_dname: "dname (snd (might_open p r sz d)) = dname d"
  by (cases "size_dev d")
    (simp_all add: might_open_unset might_open_set open_file_dname open_shm_dname)

lemma might_open_size_set: "size_dev (snd (might_open p r sz d)) \<noteq> None"
  by (cases "size_dev d")
    (simp_all add: might_open_unset might_open_set open_file_size open_shm_size)

lemma might_close_count: "count (snd (might_close d)) = count d - 1"
  by (simp add: might_close_def Let_def split: option.splits sum.splits prod.splits)

lemma might_close_dname: "dname (snd (might_close d)) = dname d"
  by (simp add: might_close_def Let_def split: option.splits sum.splits prod.splits)

lemma alloc_snd: "snd (alloc p r sz d) = snd (might_open p r sz d)"
  by (simp add: alloc_def split: prod.splits option.splits)

lemma run_count: "count (run p cs d) = count d + balance cs"
proof (induction cs arbitrary: d)
  case Nil
  show ?case by simp
next
  case (Cons c cs)
  show ?case
    by (cases c) (simp_all add: Cons.IH alloc_snd might_open_count free_def might_close_count)
qed

lemma run_dname: "dname (run p cs d) = dname d"
proof (induction cs arbitrary: d)
  case Nil
  show ?case by simp
next
  case (Cons c cs)
  show ?case
    by (cases c) (simp_all add: Cons.IH alloc_snd might_open_dname free_def might_close_dname)
qed

lemma region_open_count: "region_open (d\<lparr>count := c\<rparr>) = region_open d"
  by (simp add: region_open_def split: mem_attr.splits option.splits)

lemma handles_released_count: "handles_released (d\<lparr>count := c\<rparr>) = handles_released d"
  by (simp add: handles_released_def split: option.splits)

lemma handle_live_count: "handle_live (d\<lparr>count := c\<rparr>) = handle_live d"
  by (simp add: handle_live_def split: option.splits)

lemma mem_len_count: "mem_len (d\<lparr>count := c\<rparr>) = mem_len d"
  by (simp add: mem_len_def memoryview_def split: mem_attr.splits option.splits)

lemma region_open_mapping: "region_open d \<Longrightarrow> mapping_exists d"
  by (auto simp add: region_open_def mapping_exists_def memoryview_def
      split: mem_attr.splits option.splits)

text \<open>The first open of a file, and of a segment, when every library call succeeds.\<close>

lemma first_open_file_state:
  assumes "\<not> is_shm (dname d)" "size_dev d = None" "maps_call (dname d) (Alloc sz r)"
  shows "snd (might_open p r sz d) =
           d\<lparr>count := count d + 1, size_dev := Some sz,
             fd := Some \<lparr>fd_open = True, o_direct = (open_ok r \<and> \<not> OSX p \<and> has_O_DIRECT p)\<rparr>,
             disk_file := disk_file d @ replicate (nat sz - length (disk_file d)) 0,
             mem := Mmap (nat sz)\<rparr>"
proof -
  from assms have ok: "open_ok r \<or> retry_ok r" "0 < sz" "sz < 2 ^ 63"
    "fstat_ok r" "ftruncate_ok r" "mmap_ok r"
    by simp_all
  let ?d1 = "d\<lparr>count := count d + 1, size_dev := Some sz\<rparr>"
  have "snd (open_file p r ?d1 sz) =
      ?d1\<lparr>fd := Some \<lparr>fd_open = True, o_direct = (open_ok r \<and> \<not> OSX p \<and> has_O_DIRECT p)\<rparr>,
          disk_file := disk_file d @ replicate (nat sz - length (disk_file d)) 0,
          mem := Mmap (nat sz)\<rparr>"
    using ok
    by (auto simp add: open_file_def os_open_def os_fstat_def os_ftruncate_def mmap_mmap_def Let_def)
  then show ?thesis
    using assms(1,2) by (simp add: might_open_unset)
qed

lemma first_open_shm_state:
  assumes "is_shm (dname d)" "size_dev d = None" "0 < sz" "shm_ok r"
  shows "snd (might_open p r sz d) =
           d\<lparr>count := count d + 1, size_dev := Some sz,
             shm := Some \<lparr>seg = replicate (nat sz) 0, released = False, unlinked = False,
                          exports = 0\<rparr>,
             mem := ShmBuf\<rparr>"
  using assms
  by (simp add: might_open_unset open_shm_def SharedMemory_create_def)

lemma mem_len_mmap: "mem d = Mmap n \<Longrightarrow> mem_len d = min (length (disk_file d)) n"
  by (simp add: mem_len_def memoryview_def)

lemma mem_len_shm:
  "mem d = ShmBuf \<Longrightarrow> shm d = Some s \<Longrightarrow> \<not> released s \<Longrightarrow> mem_len d = length (seg s)"
  by (simp add: mem_len_def memoryview_def)

text \<open>The device \<^verbatim>\<open>_might_close\<close> leaves, when the teardown does not run or does not raise.\<close>

lemma might_close_other: "count d \<noteq> 1 \<Longrightarrow> might_close d = (None, d\<lparr>count := count d - 1\<rparr>)"
  by (simp add: might_close_def Let_def)

lemma might_close_last_shm:
  assumes "count d = 1" "shm d = Some s" "\<not> unlinked s" "exports s = 0"
  shows "might_close d =
           (None, d\<lparr>count := 0, shm := Some (s\<lparr>released := True, unlinked := True\<rparr>),
                    size_dev := None\<rparr>)"
  using assms
  by (simp add: might_close_def Let_def SharedMemory_unlink_def SharedMemory_close_def)

lemma might_close_last_fd:
  assumes "count d = 1" "shm d = None" "fd d = Some f" "fd_open f"
  shows "might_close d =
           (None, d\<lparr>count := 0, fd := Some (f\<lparr>fd_open := False\<rparr>), size_dev := None\<rparr>)"
  using assms
  by (simp add: might_close_def Let_def os_close_def)

text \<open>
  While a caller keeps a view of the segment, the teardown raises \<^verbatim>\<open>BufferError\<close> at
  \<^verbatim>\<open>close()\<close>: the segment is not unlinked and the size stays set.
\<close>

lemma might_close_live_view:
  "might_close (keep_view (snd (alloc macos os_fine 4 new_shm_device))) =
     (Some BufferError,
      (snd (alloc macos os_fine 4 new_shm_device))
        \<lparr>count := 0,
         shm := Some \<lparr>seg = [0, 0, 0, 0], released = True, unlinked = False, exports = 1\<rparr>\<rparr>)"
  by (simp add: model_defs keep_view_def)

subsection \<open>The life cycle invariant\<close>

text \<open>
  A new device satisfies \<open>lifecycle_inv\<close>, a good allocate keeps it, and so does a free
  that matches an earlier allocate.
\<close>

lemma init_inv: "lifecycle_inv (DiskDevice_init dev f)"
  by (simp add: lifecycle_inv_def DiskDevice_init_def handles_released_def)

lemma might_open_inv:
  assumes "lifecycle_inv d" "good_call (dname d) (Alloc sz r)"
  shows "lifecycle_inv (snd (might_open p r sz d))"
proof (cases "size_dev d")
  case (Some cap)
  with assms(1) show ?thesis
    by (auto simp add: might_open_set lifecycle_inv_def handle_live_count)
next
  case None
  with assms have c0: "count d = 0" and pos: "0 < sz"
    by (auto simp add: lifecycle_inv_def split: if_splits)
  let ?d' = "snd (might_open p r sz d)"
  have cnt: "count ?d' = 1" using c0 by (simp add: might_open_count)
  have nm: "dname ?d' = dname d" by (simp add: might_open_dname)
  have sz: "size_dev ?d' \<noteq> None" by (simp add: might_open_size_set)
  show ?thesis
  proof (cases "is_shm (dname d)")
    case True
    with assms have ok: "shm_ok r" and nofd: "fd d = None"
      by (simp_all add: lifecycle_inv_def)
    have st: "?d' =
        d\<lparr>count := count d + 1, size_dev := Some sz,
          shm := Some \<lparr>seg = replicate (nat sz) 0, released = False, unlinked = False,
                       exports = 0\<rparr>,
          mem := ShmBuf\<rparr>"
      by (rule first_open_shm_state [OF True None pos ok])
    show ?thesis
      unfolding st using True c0 nofd by (simp add: lifecycle_inv_def handle_live_def)
  next
    case False
    with assms have ok: "open_ok r \<or> retry_ok r" and noshm: "shm d = None"
      by (simp_all add: lifecycle_inv_def)
    let ?d1 = "d\<lparr>count := count d + 1, size_dev := Some sz\<rparr>"
    have st: "?d' = snd (open_file p r ?d1 sz)"
      using False None by (simp add: might_open_unset)
    have f: "fd ?d' = Some \<lparr>fd_open = True, o_direct = (open_ok r \<and> \<not> OSX p \<and> has_O_DIRECT p)\<rparr>"
      unfolding st by (rule open_file_fd [OF ok])
    have s: "shm ?d' = None"
      unfolding st using noshm by (simp add: open_file_shm)
    show ?thesis
      using False cnt nm sz f s by (simp add: lifecycle_inv_def handle_live_def)
  qed
qed

lemma might_close_inv:
  assumes "lifecycle_inv d" "0 < count d"
  shows "lifecycle_inv (snd (might_close d))"
proof (cases "count d = 1")
  case False
  with assms show ?thesis
    by (auto simp add: might_close_other lifecycle_inv_def handle_live_count)
next
  case True
  from assms have live: "handle_live d"
    and side: "if is_shm (dname d) then fd d = None else shm d = None"
    by (simp_all add: lifecycle_inv_def)
  show ?thesis
  proof (cases "shm d")
    case (Some s)
    with live side have "\<not> unlinked s" "exports s = 0"
      by (simp_all add: handle_live_def split: if_splits)
    from might_close_last_shm [OF True Some this] side Some show ?thesis
      by (auto simp add: lifecycle_inv_def handles_released_def split: if_splits)
  next
    case None
    with live obtain f where f: "fd d = Some f" "fd_open f"
      by (auto simp add: handle_live_def split: if_splits option.splits)
    from might_close_last_fd [OF True None f] side None f show ?thesis
      by (auto simp add: lifecycle_inv_def handles_released_def split: if_splits)
  qed
qed

lemma run_inv:
  assumes "lifecycle_inv d" "within (count d) cs" "list_all (good_call (dname d)) cs"
  shows "lifecycle_inv (run p cs d)"
  using assms
proof (induction cs arbitrary: d)
  case Nil
  then show ?case by simp
next
  case (Cons c cs)
  show ?case
  proof (cases c)
    case (Alloc sz r)
    from Alloc Cons.prems have g: "good_call (dname d) (Alloc sz r)"
      by simp
    have "lifecycle_inv (snd (might_open p r sz d))"
      by (rule might_open_inv [OF Cons.prems(1) g])
    moreover from Alloc Cons.prems have "within (count (snd (might_open p r sz d))) cs"
      by (simp add: might_open_count)
    moreover from Cons.prems have "list_all (good_call (dname (snd (might_open p r sz d)))) cs"
      by (simp add: might_open_dname)
    ultimately show ?thesis using Alloc Cons.IH by (simp add: alloc_snd)
  next
    case (Free b)
    with Cons.prems have pos: "0 < count d" by (simp split: if_splits)
    with Cons.prems have "lifecycle_inv (snd (might_close d))"
      by (simp add: might_close_inv)
    moreover from Free Cons.prems pos have "within (count (snd (might_close d))) cs"
      by (simp add: might_close_count)
    moreover from Cons.prems have "list_all (good_call (dname (snd (might_close d)))) cs"
      by (simp add: might_close_dname)
    ultimately show ?thesis using Free Cons.IH by (simp add: free_def)
  qed
qed

subsection \<open>The mapping invariant\<close>

text \<open>
  A new device satisfies \<open>mapped_inv\<close>, an allocate whose first open gets as far as the
  mapping keeps it, and so does a free that matches an earlier allocate.
\<close>

lemma maps_call_good: "maps_call dev c \<Longrightarrow> good_call dev c"
  by (cases c) simp_all

lemma init_mapped: "mapped_inv (DiskDevice_init dev f)"
  using init_inv [of dev f] by (simp add: mapped_inv_def) (simp add: DiskDevice_init_def)

lemma might_open_mapped:
  assumes "mapped_inv d" "maps_call (dname d) (Alloc sz r)"
  shows "mapped_inv (snd (might_open p r sz d))"
proof -
  from assms have li: "lifecycle_inv d" by (simp add: mapped_inv_def)
  have li': "lifecycle_inv (snd (might_open p r sz d))"
    by (rule might_open_inv [OF li maps_call_good [OF assms(2)]])
  show ?thesis
  proof (cases "size_dev d")
    case (Some cap)
    with li have "0 < count d" by (auto simp add: lifecycle_inv_def)
    with assms(1) Some li' show ?thesis
      by (simp add: might_open_set mapped_inv_def region_open_count mem_len_count)
  next
    case None
    from assms(2) have pos: "0 < sz" by simp
    show ?thesis
    proof (cases "is_shm (dname d)")
      case True
      with assms li have ok: "shm_ok r" and nofd: "fd d = None"
        by (simp_all add: lifecycle_inv_def)
      let ?s = "\<lparr>seg = replicate (nat sz) 0, released = False, unlinked = False, exports = 0\<rparr>"
      let ?d' = "d\<lparr>count := count d + 1, size_dev := Some sz, shm := Some ?s, mem := ShmBuf\<rparr>"
      have st: "snd (might_open p r sz d) = ?d'"
        by (rule first_open_shm_state [OF True None pos ok])
      have ro: "region_open ?d'"
        using nofd by (simp add: region_open_def)
      have ml: "int (mem_len ?d') = sz"
        using pos by (simp add: mem_len_shm [where s = ?s])
      show ?thesis
        using li' ro ml unfolding st by (simp add: mapped_inv_def)
    next
      case False
      let ?f = "\<lparr>fd_open = True, o_direct = (open_ok r \<and> \<not> OSX p \<and> has_O_DIRECT p)\<rparr>"
      let ?d' = "d\<lparr>count := count d + 1, size_dev := Some sz, fd := Some ?f,
               disk_file := disk_file d @ replicate (nat sz - length (disk_file d)) 0,
               mem := Mmap (nat sz)\<rparr>"
      have st: "snd (might_open p r sz d) = ?d'"
        by (rule first_open_file_state [OF False None assms(2)])
      have ro: "region_open ?d'"
        by (simp add: region_open_def)
      have "mem_len ?d' = nat sz"
        by (simp add: mem_len_mmap [where n = "nat sz"])
      then have ml: "int (mem_len ?d') = sz"
        using pos by simp
      show ?thesis
        using li' ro ml unfolding st by (simp add: mapped_inv_def)
    qed
  qed
qed

lemma might_close_mapped:
  assumes "mapped_inv d" "0 < count d"
  shows "mapped_inv (snd (might_close d))"
proof -
  from assms have li: "lifecycle_inv d" by (simp add: mapped_inv_def)
  have li': "lifecycle_inv (snd (might_close d))"
    by (rule might_close_inv [OF li assms(2)])
  show ?thesis
  proof (cases "count d = 1")
    case False
    with assms li' show ?thesis
      by (auto simp add: might_close_other mapped_inv_def region_open_count mem_len_count
          lifecycle_inv_def split: option.splits if_splits)
  next
    case True
    then have c: "count (snd (might_close d)) = 0"
      by (simp add: might_close_count)
    with li' have "size_dev (snd (might_close d)) = None"
      by (simp add: lifecycle_inv_def)
    with c li' show ?thesis
      by (simp add: mapped_inv_def)
  qed
qed

lemma run_mapped:
  assumes "mapped_inv d" "within (count d) cs" "list_all (maps_call (dname d)) cs"
  shows "mapped_inv (run p cs d)"
  using assms
proof (induction cs arbitrary: d)
  case Nil
  then show ?case by simp
next
  case (Cons c cs)
  show ?case
  proof (cases c)
    case (Alloc sz r)
    from Alloc Cons.prems have g: "maps_call (dname d) (Alloc sz r)"
      by simp
    have "mapped_inv (snd (might_open p r sz d))"
      by (rule might_open_mapped [OF Cons.prems(1) g])
    moreover from Alloc Cons.prems have "within (count (snd (might_open p r sz d))) cs"
      by (simp add: might_open_count)
    moreover from Cons.prems have "list_all (maps_call (dname (snd (might_open p r sz d)))) cs"
      by (simp add: might_open_dname)
    ultimately show ?thesis using Alloc Cons.IH by (simp add: alloc_snd)
  next
    case (Free b)
    with Cons.prems have pos: "0 < count d" by (simp split: if_splits)
    with Cons.prems have "mapped_inv (snd (might_close d))"
      by (simp add: might_close_mapped)
    moreover from Free Cons.prems pos have "within (count (snd (might_close d))) cs"
      by (simp add: might_close_count)
    moreover from Cons.prems have "list_all (maps_call (dname (snd (might_close d)))) cs"
      by (simp add: might_close_dname)
    ultimately show ?thesis using Free Cons.IH by (simp add: free_def)
  qed
qed

text \<open>
  For a device driven by such calls, a set size is the length of the mapping, and the
  region is open.
\<close>

lemma open_capacity_is_mapping_length:
  assumes "within 0 cs" "list_all (maps_call dev) cs"
    "size_dev (run p cs (DiskDevice_init dev f)) = Some cap"
  shows "region_open (run p cs (DiskDevice_init dev f)) \<and>
         int (mem_len (run p cs (DiskDevice_init dev f))) = cap"
proof -
  have "mapped_inv (run p cs (DiskDevice_init dev f))"
    using assms(1,2) by (intro run_mapped init_mapped) (simp_all add: DiskDevice_init_def)
  with assms(3) show ?thesis
    by (auto simp add: mapped_inv_def lifecycle_inv_def split: if_splits)
qed

subsection \<open>Allocating on an open region\<close>

text \<open>
  C5. If the region is open with capacity \<open>S1\<close> (the size of the device is \<open>S1\<close>), an
  allocate of a larger size \<open>S2\<close> fails the assertion of \<^verbatim>\<open>_might_open\<close> (the
  capacity-exceeded error), and an allocate of a size \<open>S2 \<le> S1\<close> returns a buffer of
  size \<open>S2\<close> at offset 0; in both cases the capacity is still \<open>S1\<close> afterwards.
\<close>

theorem alloc_open_capacity:
  assumes "size_dev d = Some S1"
  shows "(S1 < S2 \<longrightarrow> fst (alloc p r S2 d) = Inl AssertionError) \<and>
         (S2 \<le> S1 \<longrightarrow> fst (alloc p r S2 d) = Inr \<lparr>device = dname d, size_buf = S2, offset_buf = 0\<rparr>) \<and>
         size_dev (snd (alloc p r S2 d)) = Some S1"
  using assms by (simp add: alloc_def might_open_def Let_def)

text \<open>
  On a file device opened with 8 bytes: 9 bytes are refused, 4 bytes are granted, and the
  capacity stays 8.
\<close>

theorem alloc_open_capacity_witness:
  "size_dev (snd (alloc linux os_fine 8 new_file_device)) = Some 8 \<and>
   fst (alloc linux os_fine 9 (snd (alloc linux os_fine 8 new_file_device))) = Inl AssertionError \<and>
   fst (alloc linux os_fine 4 (snd (alloc linux os_fine 8 new_file_device))) =
     Inr \<lparr>device = ''disk:/tmp/t'', size_buf = 4, offset_buf = 0\<rparr> \<and>
   size_dev (snd (alloc linux os_fine 4 (snd (alloc linux os_fine 8 new_file_device)))) = Some 8"
proof -
  have h: "size_dev (snd (alloc linux os_fine 8 new_file_device)) = Some 8"
    by (simp add: model_defs)
  have n: "dname (snd (alloc linux os_fine 8 new_file_device)) = ''disk:/tmp/t''"
    by (simp add: model_defs)
  show ?thesis
    using h n alloc_open_capacity [OF h, of 9 linux os_fine] alloc_open_capacity [OF h, of 4 linux os_fine]
    by simp
qed

subsection \<open>A free with nothing allocated\<close>

text \<open>
  C1 says that a free at count 0 fails. \<^verbatim>\<open>_might_close\<close> has no such check: on a new
  device (count 0) the call returns normally.
\<close>

theorem free_at_zero_counterexample:
  "count new_file_device = 0 \<and> fst (free buffer4 new_file_device) = None"
  by (simp add: model_defs)

text \<open>
  C1, as the code has it. A free on a device whose count is 0 (one more free than
  allocates) raises nothing, and leaves the count at -1.
\<close>

theorem free_at_zero_no_error:
  assumes "count d = 0"
  shows "fst (free b d) = None \<and> count (snd (free b d)) = - 1"
  using assms by (simp add: free_def might_close_def Let_def)

theorem free_at_zero_no_error_witness:
  "count new_file_device = 0 \<and> fst (free buffer4 new_file_device) = None \<and>
   count (snd (free buffer4 new_file_device)) = - 1"
proof -
  have h: "count new_file_device = 0"
    by (simp add: new_file_device_def DiskDevice_init_def)
  show ?thesis using h free_at_zero_no_error [OF h, of buffer4] by simp
qed

subsection \<open>After a free at count 0\<close>





subsection \<open>Reachable states\<close>

text \<open>
  C3 says that in every reachable state the count is not negative and the mapping exists
  exactly when the count is positive. On a file device, allocate, free, free ends with
  count -1, and the mapping object, which \<^verbatim>\<open>_might_close\<close> neither closes nor unassigns,
  is still there.
\<close>

theorem reachable_count_size_counterexample:
  "count (run linux [Alloc 4 os_fine, Free buffer4, Free buffer4] new_file_device) = - 1 \<and>
   mapping_exists (run linux [Alloc 4 os_fine, Free buffer4, Free buffer4] new_file_device)"
  by (simp add: model_defs)

text \<open>
  C3, as the code has it. In every state reached from a new device by allocates and frees
  in which each free matches an earlier allocate, and each allocate asks for a positive
  size and gets its descriptor or segment, the count is not negative and the size is set
  exactly when the count is positive. If moreover each allocate asks for a size below
  \<open>2 ^ 63\<close> and, on a file device, finds \<^verbatim>\<open>os.fstat\<close>, \<^verbatim>\<open>os.ftruncate\<close> and \<^verbatim>\<open>mmap.mmap\<close>
  succeeding, the mapping exists whenever the count is positive.
\<close>

theorem reachable_count_size:
  assumes "within 0 cs" "list_all (good_call dev) cs"
  shows "0 \<le> count (run p cs (DiskDevice_init dev f)) \<and>
         (size_dev (run p cs (DiskDevice_init dev f)) \<noteq> None) = (0 < count (run p cs (DiskDevice_init dev f))) \<and>
         (list_all (maps_call dev) cs \<longrightarrow> 0 < count (run p cs (DiskDevice_init dev f)) \<longrightarrow>
            mapping_exists (run p cs (DiskDevice_init dev f)))"
proof -
  let ?d0 = "DiskDevice_init dev f"
  have "lifecycle_inv (run p cs ?d0)"
    using assms by (intro run_inv init_inv) (simp_all add: DiskDevice_init_def)
  then have 1: "0 \<le> count (run p cs ?d0)"
    and 2: "(size_dev (run p cs ?d0) \<noteq> None) = (0 < count (run p cs ?d0))"
    by (auto simp add: lifecycle_inv_def)
  have 3: "mapping_exists (run p cs ?d0)"
    if m: "list_all (maps_call dev) cs" and c: "0 < count (run p cs ?d0)"
  proof -
    have "mapped_inv (run p cs ?d0)"
      using assms(1) m by (intro run_mapped init_mapped) (simp_all add: DiskDevice_init_def)
    with c show ?thesis
      by (simp add: mapped_inv_def region_open_mapping)
  qed
  from 1 2 3 show ?thesis by blast
qed

theorem reachable_count_size_witness:
  "0 \<le> count (run linux [Alloc 4 os_fine, Alloc 2 os_fine, Free buffer4] new_file_device) \<and>
   (size_dev (run linux [Alloc 4 os_fine, Alloc 2 os_fine, Free buffer4] new_file_device) \<noteq> None) \<and>
   0 < count (run linux [Alloc 4 os_fine, Alloc 2 os_fine, Free buffer4] new_file_device) \<and>
   mapping_exists (run linux [Alloc 4 os_fine, Alloc 2 os_fine, Free buffer4] new_file_device)"
proof -
  let ?cs = "[Alloc 4 os_fine, Alloc 2 os_fine, Free buffer4]"
  have w: "within 0 ?cs" by simp
  have g: "list_all (good_call ''disk:/tmp/t'') ?cs"
    by (simp add: is_shm_def os_fine_def)
  have m: "list_all (maps_call ''disk:/tmp/t'') ?cs"
    by (simp add: is_shm_def os_fine_def)
  have c: "count (run linux ?cs new_file_device) = 1"
    unfolding run_count by (simp add: new_file_device_def DiskDevice_init_def)
  show ?thesis
    using reachable_count_size [OF w g, of linux "[]"] m c
    by (simp add: new_file_device_def)
qed

subsection \<open>Balanced sequences\<close>

text \<open>
  C4 says that every sequence with as many frees as allocates ends closed, with no size
  and no mapping. A free followed by an allocate has one of each and ends with the
  region open at size 4. And after allocate, free on a file device the mapping object is
  still held by the device, although the size is reset and the descriptor closed.
\<close>

theorem balanced_run_closed_counterexample:
  "balance [Free buffer4, Alloc 4 os_fine] = 0 \<and>
   size_dev (run linux [Free buffer4, Alloc 4 os_fine] new_file_device) = Some 4 \<and>
   region_open (run linux [Free buffer4, Alloc 4 os_fine] new_file_device) \<and>
   balance [Alloc 4 os_fine, Free buffer4] = 0 \<and>
   mapping_exists (run linux [Alloc 4 os_fine, Free buffer4] new_file_device)"
  by (simp add: model_defs)

text \<open>
  C4, as the code has it. For every sequence of allocates and frees on a new device with
  as many frees as allocates, in which each free matches an earlier allocate and each
  allocate asks for a positive size and gets its descriptor or segment, the final state
  is closed: the count is 0, the size is unset, and the descriptor is closed or the
  segment closed and unlinked.
\<close>

theorem balanced_run_closed:
  assumes "within 0 cs" "balance cs = 0" "list_all (good_call dev) cs"
  shows "count (run p cs (DiskDevice_init dev f)) = 0 \<and>
         size_dev (run p cs (DiskDevice_init dev f)) = None \<and>
         handles_released (run p cs (DiskDevice_init dev f))"
proof -
  let ?d0 = "DiskDevice_init dev f"
  have inv: "lifecycle_inv (run p cs ?d0)"
    using assms by (intro run_inv init_inv) (simp_all add: DiskDevice_init_def)
  have c: "count (run p cs ?d0) = 0"
    using assms(2) by (simp add: run_count DiskDevice_init_def)
  from inv c show ?thesis
    by (simp add: lifecycle_inv_def)
qed

theorem balanced_run_closed_witness:
  "count (run linux [Alloc 4 os_fine, Alloc 2 os_fine, Free buffer4, Free buffer4] new_shm_device) = 0 \<and>
   size_dev (run linux [Alloc 4 os_fine, Alloc 2 os_fine, Free buffer4, Free buffer4] new_shm_device) = None \<and>
   handles_released (run linux [Alloc 4 os_fine, Alloc 2 os_fine, Free buffer4, Free buffer4] new_shm_device)"
proof -
  let ?cs = "[Alloc 4 os_fine, Alloc 2 os_fine, Free buffer4, Free buffer4]"
  have w: "within 0 ?cs" by simp
  have b: "balance ?cs = 0" by simp
  have g: "list_all (good_call ''disk:shm:t'') ?cs"
    by (simp add: is_shm_def os_fine_def)
  show ?thesis
    using balanced_run_closed [OF w b g, of linux "[]"]
    by (simp add: new_shm_device_def)
qed

subsection \<open>Using a buffer after the region was closed\<close>

text \<open>
  No sequence of allocates and frees makes \<^verbatim>\<open>mem\<close> the value \<^verbatim>\<open>None\<close>, so the assertion of
  \<^verbatim>\<open>_buf\<close> never fails on a device driven by this module.
\<close>

lemma might_open_mem: "mem d \<noteq> PyNone \<Longrightarrow> mem (snd (might_open p r sz d)) \<noteq> PyNone"
  by (cases "size_dev d")
    (simp_all add: might_open_unset might_open_set open_file_mem open_shm_mem)

lemma might_close_mem: "mem (snd (might_close d)) = mem d"
  by (simp add: might_close_def Let_def split: option.splits sum.splits prod.splits)

lemma run_mem: "mem d \<noteq> PyNone \<Longrightarrow> mem (run p cs d) \<noteq> PyNone"
proof (induction cs arbitrary: d)
  case Nil
  then show ?case by simp
next
  case (Cons c cs)
  then show ?case
    by (cases c) (simp_all add: alloc_snd might_open_mem free_def might_close_mem)
qed

lemma buf_assertion_dead: "buf (run p cs (DiskDevice_init dev f)) b \<noteq> Inl AssertionError"
proof -
  have "mem (run p cs (DiskDevice_init dev f)) \<noteq> PyNone"
    by (rule run_mem) (simp add: DiskDevice_init_def)
  then show ?thesis
    by (simp add: buf_def memoryview_def split: mem_attr.splits option.splits)
qed

text \<open>
  C2. After the last matching free (allocate 4 bytes, free, on a file device) the count
  is 0 and the size unset, and the buffer issued by the allocate is used again: the
  assertion passes, \<^verbatim>\<open>as_buffer\<close> returns the four-byte view, \<^verbatim>\<open>copyin\<close> writes and
  \<^verbatim>\<open>copyout\<close> reads. None of the three raises.
\<close>

theorem use_after_close_no_assertion:
  "count (run linux [Alloc 4 os_fine, Free buffer4] new_file_device) = 0 \<and>
   size_dev (run linux [Alloc 4 os_fine, Free buffer4] new_file_device) = None \<and>
   as_buffer (run linux [Alloc 4 os_fine, Free buffer4] new_file_device) buffer4 =
     Inr \<lparr>v_start = 0, v_len = 4\<rparr> \<and>
   fst (copyin (run linux [Alloc 4 os_fine, Free buffer4] new_file_device) buffer4 [1, 2, 3, 4]) = None \<and>
   copyout linux (run linux [Alloc 4 os_fine, Free buffer4] new_file_device) [9, 9, 9, 9] buffer4 =
     Inr [0, 0, 0, 0]"
  by (simp add: model_defs)

text \<open>
  On a shared-memory device the same calls raise \<^verbatim>\<open>ValueError\<close> (the buffer is released),
  and on \<^verbatim>\<open>OSX\<close> \<^verbatim>\<open>copyout\<close> raises \<^verbatim>\<open>OSError\<close> on the closed descriptor; neither is the
  assertion.
\<close>

lemma use_after_close_other_paths:
  "as_buffer (run macos [Alloc 4 os_fine, Free buffer4] new_shm_device) buffer4 = Inl ValueError \<and>
   copyout macos (run macos [Alloc 4 os_fine, Free buffer4] new_file_device) [9, 9, 9, 9] buffer4 =
     Inl OSError"
  by (simp add: model_defs)

subsection \<open>Writing and reading back\<close>

lemma splice_read: "i + length bs \<le> length xs \<Longrightarrow> take (length bs) (drop i (splice xs i bs)) = bs"
  by (simp add: splice_def)

lemma splice_length: "i + length bs \<le> length xs \<Longrightarrow> length (splice xs i bs) = length xs"
  by (simp add: splice_def)

lemma splice_read_take:
  assumes "i + length bs \<le> n" "i + length bs \<le> length xs"
  shows "take (length bs) (drop i (take n (splice xs i bs))) = bs"
proof -
  have "drop i (take n (splice xs i bs)) = take (n - i) (drop i (splice xs i bs))"
    by (simp add: drop_take)
  moreover have "length bs \<le> n - i" using assms by simp
  ultimately have "take (length bs) (drop i (take n (splice xs i bs))) =
      take (length bs) (drop i (splice xs i bs))"
    by (simp add: min_absorb1)
  then show ?thesis using assms by (simp add: splice_read)
qed

lemma py_slice_inside:
  assumes "0 \<le> a" "0 \<le> s" "a + s \<le> int n"
  shows "py_slice n a (a + s) = \<lparr>v_start = nat a, v_len = nat s\<rparr>"
  using assms by (auto simp add: py_slice_def clamp_index_def min_def)

text \<open>
  Within one read: for an open region, a buffer that lies inside the mapping (offset not
  negative, offset plus size at most the length of the mapping) and bytes \<open>B\<close> as long as
  the buffer's size and no longer than \<open>READ_MAX\<close>, \<^verbatim>\<open>copyin\<close> of \<open>B\<close> succeeds and
  \<^verbatim>\<open>copyout\<close> into a destination of the same length then yields \<open>B\<close>, on every platform
  \<open>p\<close>: through the mapped view and, on \<^verbatim>\<open>OSX\<close> with a file descriptor, through the
  descriptor.
\<close>

lemma write_then_read_one_read:
  assumes "region_open d" "0 \<le> offset_buf b"
    "offset_buf b + size_buf b \<le> int (mem_len d)"
    "int (length B) = size_buf b" "length dest = length B" "length B \<le> READ_MAX"
  shows "fst (copyin d b B) = None \<and> copyout p (snd (copyin d b B)) dest b = Inr B"
proof (cases "mem d")
  case Absent
  with assms(1) show ?thesis by (simp add: region_open_def)
next
  case PyNone
  with assms(1) show ?thesis by (simp add: region_open_def)
next
  case (Mmap n)
  with assms(1) obtain f where f: "fd d = Some f" "fd_open f"
    by (auto simp add: region_open_def split: option.splits)
  let ?i = "nat (offset_buf b)"
  let ?file = "disk_file d"
  have mv: "memoryview d = Inr (take n ?file)"
    using Mmap by (simp add: memoryview_def)
  have len: "mem_len d = min (length ?file) n"
    using mv by (simp add: mem_len_def)
  have sz: "0 \<le> size_buf b" using assms(4) by linarith
  have bound: "?i + length B \<le> n" "?i + length B \<le> length ?file"
    using assms(2,3,4) len by linarith+
  have v: "py_slice (length (take n ?file)) (offset_buf b) (offset_buf b + size_buf b) =
      \<lparr>v_start = ?i, v_len = length B\<rparr>"
    using assms(2,3,4) sz len py_slice_inside [of "offset_buf b" "size_buf b" "length (take n ?file)"]
    by (simp add: nat_int [symmetric] del: nat_int)
  let ?d' = "d\<lparr>disk_file := splice ?file ?i B\<rparr>"
  have cin: "copyin d b B = (None, ?d')"
    using mv v Mmap by (simp add: copyin_def buf_def mem_store_def)
  have mv': "memoryview ?d' = Inr (take n (splice ?file ?i B))"
    using Mmap by (simp add: memoryview_def)
  have len': "length (take n (splice ?file ?i B)) = length (take n ?file)"
    using bound by (simp add: splice_length)
  have direct: "buf ?d' b = Inr \<lparr>v_start = ?i, v_len = length B\<rparr>"
    using mv' len' v by (simp add: buf_def)
  have bytes: "view_bytes ?d' \<lparr>v_start = ?i, v_len = length B\<rparr> = B"
    using mv' bound by (simp add: view_bytes_def splice_read_take)
  have fdread: "read_fd ?d' f dest (offset_buf b) = Inr B"
    using f assms(2,5,6) bound by (simp add: read_fd_def splice_read Let_def min_absorb1)
  show ?thesis
    using cin direct bytes fdread f assms(5) by (simp add: copyout_def)
next
  case ShmBuf
  with assms(1) obtain s where s: "shm d = Some s" "\<not> released s" "fd d = None"
    by (auto simp add: region_open_def split: option.splits)
  let ?i = "nat (offset_buf b)"
  have mv: "memoryview d = Inr (seg s)"
    using ShmBuf s by (simp add: memoryview_def)
  have len: "mem_len d = length (seg s)"
    using mv by (simp add: mem_len_def)
  have sz: "0 \<le> size_buf b" using assms(4) by linarith
  have bound: "?i + length B \<le> length (seg s)"
    using assms(2,3,4) len by linarith
  have v: "py_slice (length (seg s)) (offset_buf b) (offset_buf b + size_buf b) =
      \<lparr>v_start = ?i, v_len = length B\<rparr>"
    using assms(2,3,4) sz len py_slice_inside [of "offset_buf b" "size_buf b" "length (seg s)"]
    by (simp add: nat_int [symmetric] del: nat_int)
  let ?d' = "d\<lparr>shm := Some (s\<lparr>seg := splice (seg s) ?i B\<rparr>)\<rparr>"
  have cin: "copyin d b B = (None, ?d')"
    using mv v ShmBuf s by (simp add: copyin_def buf_def mem_store_def)
  have mv': "memoryview ?d' = Inr (splice (seg s) ?i B)"
    using ShmBuf s by (simp add: memoryview_def)
  have direct: "buf ?d' b = Inr \<lparr>v_start = ?i, v_len = length B\<rparr>"
    using mv' bound v by (simp add: buf_def splice_length)
  have bytes: "view_bytes ?d' \<lparr>v_start = ?i, v_len = length B\<rparr> = B"
    using mv' bound by (simp add: view_bytes_def splice_read)
  show ?thesis
    using cin direct bytes s assms(5) by (simp add: copyout_def)
qed

text \<open>Through the mapped view the length of \<open>B\<close> does not matter.\<close>

lemma write_then_read_view:
  assumes "region_open d" "0 \<le> offset_buf b"
    "offset_buf b + size_buf b \<le> int (mem_len d)"
    "int (length B) = size_buf b" "length dest = length B" "\<not> OSX p"
  shows "fst (copyin d b B) = None \<and> copyout p (snd (copyin d b B)) dest b = Inr B"
proof -
  show ?thesis
  proof (cases "mem d")
    case Absent
    with assms(1) show ?thesis by (simp add: region_open_def)
  next
    case PyNone
    with assms(1) show ?thesis by (simp add: region_open_def)
  next
    case (Mmap n)
    let ?i = "nat (offset_buf b)"
    let ?file = "disk_file d"
    have mv: "memoryview d = Inr (take n ?file)"
      using Mmap by (simp add: memoryview_def)
    have len: "mem_len d = min (length ?file) n"
      using mv by (simp add: mem_len_def)
    have sz: "0 \<le> size_buf b" using assms(4) by linarith
    have bound: "?i + length B \<le> n" "?i + length B \<le> length ?file"
      using assms(2,3,4) len by linarith+
    have v: "py_slice (length (take n ?file)) (offset_buf b) (offset_buf b + size_buf b) =
        \<lparr>v_start = ?i, v_len = length B\<rparr>"
      using assms(2,3,4) sz len py_slice_inside [of "offset_buf b" "size_buf b" "length (take n ?file)"]
      by (simp add: nat_int [symmetric] del: nat_int)
    let ?d' = "d\<lparr>disk_file := splice ?file ?i B\<rparr>"
    have cin: "copyin d b B = (None, ?d')"
      using mv v Mmap by (simp add: copyin_def buf_def mem_store_def)
    have mv': "memoryview ?d' = Inr (take n (splice ?file ?i B))"
      using Mmap by (simp add: memoryview_def)
    have len': "length (take n (splice ?file ?i B)) = length (take n ?file)"
      using bound by (simp add: splice_length)
    have direct: "buf ?d' b = Inr \<lparr>v_start = ?i, v_len = length B\<rparr>"
      using mv' len' v by (simp add: buf_def)
    have bytes: "view_bytes ?d' \<lparr>v_start = ?i, v_len = length B\<rparr> = B"
      using mv' bound by (simp add: view_bytes_def splice_read_take)
    show ?thesis
      using cin direct bytes assms(5,6) by (simp add: copyout_def)
  next
    case ShmBuf
    with assms(1) obtain s where s: "shm d = Some s" "\<not> released s" "fd d = None"
      by (auto simp add: region_open_def split: option.splits)
    let ?i = "nat (offset_buf b)"
    have mv: "memoryview d = Inr (seg s)"
      using ShmBuf s by (simp add: memoryview_def)
    have len: "mem_len d = length (seg s)"
      using mv by (simp add: mem_len_def)
    have sz: "0 \<le> size_buf b" using assms(4) by linarith
    have bound: "?i + length B \<le> length (seg s)"
      using assms(2,3,4) len by linarith
    have v: "py_slice (length (seg s)) (offset_buf b) (offset_buf b + size_buf b) =
        \<lparr>v_start = ?i, v_len = length B\<rparr>"
      using assms(2,3,4) sz len py_slice_inside [of "offset_buf b" "size_buf b" "length (seg s)"]
      by (simp add: nat_int [symmetric] del: nat_int)
    let ?d' = "d\<lparr>shm := Some (s\<lparr>seg := splice (seg s) ?i B\<rparr>)\<rparr>"
    have cin: "copyin d b B = (None, ?d')"
      using mv v ShmBuf s by (simp add: copyin_def buf_def mem_store_def)
    have mv': "memoryview ?d' = Inr (splice (seg s) ?i B)"
      using ShmBuf s by (simp add: memoryview_def)
    have direct: "buf ?d' b = Inr \<lparr>v_start = ?i, v_len = length B\<rparr>"
      using mv' bound v by (simp add: buf_def splice_length)
    have bytes: "view_bytes ?d' \<lparr>v_start = ?i, v_len = length B\<rparr> = B"
      using mv' bound by (simp add: view_bytes_def splice_read)
    show ?thesis
      using cin direct bytes s assms(5) by (simp add: copyout_def)
  qed
qed

text \<open>The device and the buffer of the example that follows: a file region of \<open>2 ^ 31\<close> bytes.\<close>

lemma big_region:
  "snd (alloc macos os_fine 2147483648 new_file_device) =
     new_file_device
       \<lparr>count := 1, size_dev := Some 2147483648,
        fd := Some \<lparr>fd_open = True, o_direct = False\<rparr>,
        disk_file := replicate 2147483648 0, mem := Mmap 2147483648\<rparr>"
proof -
  have n: "\<not> is_shm (dname new_file_device)" "size_dev new_file_device = None"
    by (simp_all add: new_file_device_def DiskDevice_init_def is_shm_def)
  have m: "maps_call (dname new_file_device) (Alloc 2147483648 os_fine)"
    by (simp add: new_file_device_def DiskDevice_init_def is_shm_def os_fine_def)
  show ?thesis
    unfolding alloc_snd first_open_file_state [OF n m, of macos]
    by (simp add: new_file_device_def DiskDevice_init_def macos_def os_fine_def)
qed

lemma ones_then_zero: "replicate n (1 :: byte) @ [0] \<noteq> replicate m 1"
proof
  assume eq: "replicate n (1 :: byte) @ [0] = replicate m 1"
  have "(0 :: byte) \<in> set (replicate n 1 @ [0])"
    by simp
  then have "(0 :: byte) \<in> set (replicate m 1)"
    by (simp only: eq)
  then show False by simp
qed

text \<open>
  C6. On \<^verbatim>\<open>OSX\<close>, on a file region of \<open>2 ^ 31\<close> bytes, the buffer of the whole region is
  open and \<open>B\<close> is \<open>2 ^ 31\<close> bytes of value 1, as long as the buffer's size. \<^verbatim>\<open>copyin\<close>
  succeeds; \<^verbatim>\<open>copyout\<close> into a destination of \<open>2 ^ 31\<close> zero bytes takes the descriptor
  path, whose single \<^verbatim>\<open>readinto\<close> transfers \<open>READ_MAX\<close> bytes, and returns normally with
  the last byte of the destination still 0: the destination is not \<open>B\<close>.
\<close>

theorem copyout_descriptor_short_read:
  "fst (copyin (snd (alloc macos os_fine 2147483648 new_file_device))
          \<lparr>device = ''disk:/tmp/t'', size_buf = 2147483648, offset_buf = 0\<rparr>
          (replicate 2147483648 1)) = None \<and>
   copyout macos
     (snd (copyin (snd (alloc macos os_fine 2147483648 new_file_device))
             \<lparr>device = ''disk:/tmp/t'', size_buf = 2147483648, offset_buf = 0\<rparr>
             (replicate 2147483648 1)))
     (replicate 2147483648 0)
     \<lparr>device = ''disk:/tmp/t'', size_buf = 2147483648, offset_buf = 0\<rparr> =
       Inr (replicate 2147483647 1 @ [0]) \<and>
   replicate 2147483647 1 @ [0] \<noteq> (replicate 2147483648 1 :: byte list)"
proof -
  let ?d = "new_file_device
       \<lparr>count := 1, size_dev := Some 2147483648,
        fd := Some \<lparr>fd_open = True, o_direct = False\<rparr>,
        disk_file := replicate 2147483648 0, mem := Mmap 2147483648\<rparr>"
  let ?b = "\<lparr>device = ''disk:/tmp/t'', size_buf = 2147483648, offset_buf = 0\<rparr>"
  let ?B = "replicate 2147483648 1 :: byte list"
  have v: "buf ?d ?b = Inr \<lparr>v_start = 0, v_len = 2147483648\<rparr>"
    by (simp add: buf_def memoryview_def py_slice_def clamp_index_def)
  have cin: "copyin ?d ?b ?B = (None, ?d\<lparr>disk_file := ?B\<rparr>)"
    using v by (simp add: copyin_def mem_store_def splice_def)
  have tail: "drop 2147483647 (replicate 2147483648 (0 :: byte)) = [0]"
    by (simp add: drop_replicate)
  have cout: "copyout macos (?d\<lparr>disk_file := ?B\<rparr>) (replicate 2147483648 0) ?b =
      Inr (replicate 2147483647 1 @ [0])"
    using tail by (simp add: copyout_def macos_def read_fd_def READ_MAX_def Let_def take_replicate)
  show ?thesis
    unfolding big_region using cin cout ones_then_zero [of 2147483647 2147483648] by simp
qed

subsection \<open>Buffers that reach past the mapping\<close>

text \<open>
  C10 says that every buffer whose offset plus size exceeds the length of the mapping
  gets a view shorter than requested and that writing size bytes into it fails. A buffer
  of size 0 at offset 10 of a 4-byte mapping exceeds it, gets the empty view it asked
  for, and \<^verbatim>\<open>copyin\<close> of no bytes succeeds.
\<close>

theorem empty_slice_past_end_counterexample:
  "mem_len (snd (alloc linux os_fine 4 new_file_device)) = 4 \<and>
   as_buffer (snd (alloc linux os_fine 4 new_file_device)) (offset buffer4 0 10) =
     Inr \<lparr>v_start = 4, v_len = 0\<rparr> \<and>
   fst (copyin (snd (alloc linux os_fine 4 new_file_device)) (offset buffer4 0 10) []) = None"
  by (simp add: model_defs)

text \<open>
  C10, as the code has it. \<^verbatim>\<open>_buf\<close> checks no bounds. For a buffer of positive size whose
  offset plus size exceeds the length of the mapping, \<^verbatim>\<open>as_buffer\<close> returns without error
  a view that ends at the end of the mapping and is shorter than the size, and a
  \<^verbatim>\<open>copyin\<close> of size bytes raises \<^verbatim>\<open>ValueError\<close> (the lengths differ) and leaves the device
  as it was.
\<close>

theorem slice_past_end_truncated:
  assumes "memoryview d = Inr m" "0 < size_buf b" "int (length m) < offset_buf b + size_buf b"
  shows "as_buffer d b = Inr (py_slice (length m) (offset_buf b) (offset_buf b + size_buf b)) \<and>
         v_start (py_slice (length m) (offset_buf b) (offset_buf b + size_buf b)) +
           v_len (py_slice (length m) (offset_buf b) (offset_buf b + size_buf b)) = length m \<and>
         int (v_len (py_slice (length m) (offset_buf b) (offset_buf b + size_buf b))) < size_buf b \<and>
         (int (length src) = size_buf b \<longrightarrow> copyin d b src = (Some ValueError, d))"
proof -
  let ?v = "py_slice (length m) (offset_buf b) (offset_buf b + size_buf b)"
  have stop: "clamp_index (length m) (offset_buf b + size_buf b) = length m"
    using assms(3) by (simp add: clamp_index_def)
  have start: "clamp_index (length m) (offset_buf b) \<le> length m"
    by (auto simp add: clamp_index_def)
  have ends: "v_start ?v + v_len ?v = length m"
    using stop start by (simp add: py_slice_def)
  have short: "int (v_len ?v) < size_buf b"
    using assms(2,3) stop by (auto simp add: py_slice_def clamp_index_def)
  have b: "buf d b = Inr ?v"
    using assms(1) by (simp add: buf_def)
  have "int (length src) = size_buf b \<longrightarrow> copyin d b src = (Some ValueError, d)"
    using b short by (auto simp add: copyin_def)
  with b ends short show ?thesis by (simp add: as_buffer_def)
qed

theorem slice_past_end_truncated_witness:
  "as_buffer (snd (alloc linux os_fine 4 new_file_device)) (offset buffer4 4 2) =
     Inr \<lparr>v_start = 2, v_len = 2\<rparr> \<and>
   copyin (snd (alloc linux os_fine 4 new_file_device)) (offset buffer4 4 2) [1, 2, 3, 4] =
     (Some ValueError, snd (alloc linux os_fine 4 new_file_device))"
proof -
  let ?d = "snd (alloc linux os_fine 4 new_file_device)"
  let ?b = "offset buffer4 4 2"
  have m: "memoryview ?d = Inr [0, 0, 0, 0]"
    by (simp add: model_defs)
  have h: "0 < size_buf ?b" "int (length [0, 0, 0, 0 :: byte]) < offset_buf ?b + size_buf ?b"
    "int (length [1, 2, 3, 4 :: byte]) = size_buf ?b"
    by (simp_all add: offset_def)
  have v: "py_slice (length [0, 0, 0, 0 :: byte]) (offset_buf ?b) (offset_buf ?b + size_buf ?b) =
      \<lparr>v_start = 2, v_len = 2\<rparr>"
    by (simp add: py_slice_def clamp_index_def offset_def)
  show ?thesis
    using slice_past_end_truncated [OF m h(1) h(2), of "[1, 2, 3, 4]"] h(3) v by simp
qed

subsection \<open>The huge-pages hint\<close>

text \<open>
  C7 says that a failure to apply the hint never fails the open. \<^verbatim>\<open>_might_open\<close> calls
  \<^verbatim>\<open>madvise\<close> outside any \<^verbatim>\<open>try\<close>: on a platform with \<^verbatim>\<open>MADV_HUGEPAGE\<close>, when the kernel
  refuses the hint for a file mapping, the first open raises \<^verbatim>\<open>OSError\<close>.
\<close>

theorem hugepage_refused_counterexample:
  "MADV_HUGEPAGE linux = Some 14 \<and>
   fst (might_open linux (os_fine\<lparr>madvise_ok := False\<rparr>) 4 new_file_device) = Some OSError"
  by (simp add: model_defs)

text \<open>
  C7, as the code has it. The first open of a file-backed region that obtains its
  descriptor and establishes its mapping (a positive size below \<open>2 ^ 63\<close>; \<^verbatim>\<open>os.open\<close>,
  \<^verbatim>\<open>os.fstat\<close>, \<^verbatim>\<open>os.ftruncate\<close> and \<^verbatim>\<open>mmap.mmap\<close> succeed) then, on a platform with
  \<^verbatim>\<open>MADV_HUGEPAGE\<close>, applies the hint to the mapping: the open returns normally when the
  kernel accepts the hint, and raises the \<^verbatim>\<open>OSError\<close> of \<^verbatim>\<open>madvise\<close> when it does not; on a
  platform without the constant no hint is applied and the open returns normally. In
  every case the region is counted, sized and mapped afterwards.
\<close>

theorem first_open_file_hugepage:
  assumes "\<not> is_shm (dname d)" "size_dev d = None" "maps_call (dname d) (Alloc sz r)"
  shows "fst (might_open p r sz d) =
           (case MADV_HUGEPAGE p of
              None \<Rightarrow> None
            | Some hp \<Rightarrow> if madvise_ok r then None else Some OSError) \<and>
         mem (snd (might_open p r sz d)) = Mmap (nat sz) \<and>
         size_dev (snd (might_open p r sz d)) = Some sz \<and>
         count (snd (might_open p r sz d)) = count d + 1"
proof -
  from assms have ok: "open_ok r \<or> retry_ok r" "0 < sz" "sz < 2 ^ 63"
    "fstat_ok r" "ftruncate_ok r" "mmap_ok r"
    by simp_all
  let ?d1 = "d\<lparr>count := count d + 1, size_dev := Some sz\<rparr>"
  let ?f = "\<lparr>fd_open = True, o_direct = (open_ok r \<and> \<not> OSX p \<and> has_O_DIRECT p)\<rparr>"
  have op: "open_file p r ?d1 sz =
      (None, ?d1\<lparr>fd := Some ?f,
                 disk_file := disk_file d @ replicate (nat sz - length (disk_file d)) 0,
                 mem := Mmap (nat sz)\<rparr>)"
    using ok
    by (auto simp add: open_file_def os_open_def os_fstat_def os_ftruncate_def mmap_mmap_def Let_def)
  have "fst (might_open p r sz d) =
           (case MADV_HUGEPAGE p of
              None \<Rightarrow> None
            | Some hp \<Rightarrow> if madvise_ok r then None else Some OSError)"
    using assms(1,2) op
    by (simp add: might_open_def is_shm_def madvise_def Let_def split: option.splits)
  moreover have "snd (might_open p r sz d) =
      ?d1\<lparr>fd := Some ?f,
          disk_file := disk_file d @ replicate (nat sz - length (disk_file d)) 0,
          mem := Mmap (nat sz)\<rparr>"
    using first_open_file_state [OF assms, of p] by simp
  ultimately show ?thesis by simp
qed

theorem first_open_file_hugepage_witness:
  "fst (might_open linux os_fine 4 new_file_device) = None \<and>
   fst (might_open linux (os_fine\<lparr>madvise_ok := False\<rparr>) 4 new_file_device) = Some OSError \<and>
   mem (snd (might_open linux (os_fine\<lparr>madvise_ok := False\<rparr>) 4 new_file_device)) = Mmap 4 \<and>
   fst (might_open macos (os_fine\<lparr>madvise_ok := False\<rparr>) 4 new_file_device) = None"
proof -
  have h: "\<not> is_shm (dname new_file_device)" "size_dev new_file_device = None"
    by (simp_all add: new_file_device_def DiskDevice_init_def is_shm_def)
  have r: "maps_call (dname new_file_device) (Alloc 4 os_fine)"
    "maps_call (dname new_file_device) (Alloc 4 (os_fine\<lparr>madvise_ok := False\<rparr>))"
    by (simp_all add: new_file_device_def DiskDevice_init_def is_shm_def os_fine_def)
  show ?thesis
    using first_open_file_hugepage [OF h r(1), of linux]
      first_open_file_hugepage [OF h r(2), of linux]
      first_open_file_hugepage [OF h r(2), of macos]
    by (simp add: linux_def macos_def os_fine_def)
qed

text \<open>
  For a shared-memory region \<^verbatim>\<open>mem\<close> is a memoryview, which has no \<^verbatim>\<open>madvise\<close>: on a
  platform with \<^verbatim>\<open>MADV_HUGEPAGE\<close> the first open always raises \<^verbatim>\<open>AttributeError\<close>.
\<close>

lemma first_open_shm_hugepage:
  assumes "is_shm (dname d)" "size_dev d = None" "0 < sz" "shm_ok r" "MADV_HUGEPAGE p = Some hp"
  shows "fst (might_open p r sz d) = Some AttributeError"
  using assms
  by (simp add: might_open_def open_shm_def SharedMemory_create_def madvise_def is_shm_def Let_def)

subsection \<open>Deriving a buffer\<close>

text \<open>
  C8. For every buffer \<open>b\<close>, size and offset, \<^verbatim>\<open>offset(b, size, offset)\<close> is a buffer on the
  device of \<open>b\<close> whose offset is the offset given, whatever the offset of \<open>b\<close> is (it is
  absolute, not added to the offset of \<open>b\<close>), and whose size is the size given. The
  method builds a new object from the three values and assigns nothing, so \<open>b\<close> is as it
  was.
\<close>

theorem offset_absolute:
  "device (offset b sz off) = device b \<and>
   offset_buf (offset b sz off) = off \<and>
   size_buf (offset b sz off) = sz \<and>
   offset (b\<lparr>offset_buf := off'\<rparr>) sz off = offset b sz off"
  by (simp add: offset_def)

end
